theory Spec2Isabelle
  imports Main "HOL-Library.Word" "HOL-Library.Code_Target_Nat"
begin

section \<open>Data model\<close>

text \<open>
  The Prisma schema of \<^verbatim>\<open>auth-todo.mdx\<close> declares the tables \<^verbatim>\<open>users\<close> and
  \<^verbatim>\<open>sessions\<close>. A row is a record; \<^verbatim>\<open>DateTime\<close> columns hold milliseconds since
  the epoch; optional columns (\<^verbatim>\<open>String?\<close>, \<^verbatim>\<open>DateTime?\<close>) are options. The columns
  \<^verbatim>\<open>id\<close>, \<^verbatim>\<open>createdAt\<close> and \<^verbatim>\<open>updatedAt\<close> occur in both tables and carry the
  table's name as a prefix here.
\<close>

datatype UserRole = ADMIN | USER

record User =
  user_id :: string
  username :: string
  email :: string
  password :: string
  role :: UserRole
  lastLoginAt :: "int option"
  failedLoginAttempts :: int
  user_createdAt :: int
  user_updatedAt :: int

record Session =
  session_id :: string
  userId :: string
  sessionToken :: string
  expiresAt :: int
  ipAddress :: "string option"
  userAgent :: "string option"
  lastActiveAt :: int
  session_createdAt :: int
  session_updatedAt :: int

text \<open>
  What a rejected promise or a thrown exception carries. The first four are the failures
  of the Prisma client that the snippets can meet: a \<^verbatim>\<open>@unique\<close> or \<^verbatim>\<open>@id\<close> column
  that already holds the value, a \<^verbatim>\<open>@relation\<close> whose target row is missing, a
  \<^verbatim>\<open>delete\<close> whose \<^verbatim>\<open>where\<close> selects no row, and a \<^verbatim>\<open>Date\<close> argument that is
  an Invalid Date. \<open>InconsistentQueryResult\<close> is a required relation that resolves to
  no row, and \<open>MalformedDigest\<close> is the failure of the password verifier.
  \<open>SizeOutOfRange\<close> is the \<^verbatim>\<open>RangeError\<close> of \<^verbatim>\<open>crypto.randomBytes\<close> for a size
  above \<open>2^31 - 1\<close>, and \<open>StringTooLong\<close> is the error of \<^verbatim>\<open>Buffer.toString\<close> for
  a result longer than the longest string (\<open>2^29 - 24\<close> characters).
  \<open>ValidationError\<close> and \<open>ConflictError\<close> are the two errors that the
  specification gives the Register flow.
\<close>

datatype error =
    UniqueConstraintFailed
  | ForeignKeyConstraintFailed
  | RecordNotFound
  | InvalidDateArgument
  | InconsistentQueryResult
  | MalformedDigest
  | SizeOutOfRange
  | StringTooLong
  | ValidationError
  | ConflictError

text \<open>
  The world the snippets run in: the two tables (rows in insertion order), the secure
  random source as a stream of bytes with the number of bytes drawn so far, and the
  supply of \<^verbatim>\<open>cuid()\<close> identifiers with the number issued so far. The clock is not a
  field: every operation that reads it takes the time of the call as an argument.
\<close>

record world =
  users :: "User list"
  sessions :: "Session list"
  entropy :: "nat \<Rightarrow> 8 word"
  drawn :: nat
  cuids :: "nat \<Rightarrow> string"
  issued :: nat

text \<open>
  A JavaScript \<^verbatim>\<open>Date\<close> holds a time value or is an Invalid Date. \<^verbatim>\<open>new Date(t)\<close>
  clips: a time value beyond 8.64e15 ms on either side of the epoch gives an Invalid
  Date. Numbers are modelled as integers (whole hours, whole milliseconds).
\<close>

datatype js_date = Date int | InvalidDate

definition new_Date :: "int \<Rightarrow> js_date" where
  "new_Date t = (if \<bar>t\<bar> \<le> 8640000000000000 then Date t else InvalidDate)"

section \<open>Utility functions\<close>

subsection \<open>Session token\<close>

text \<open>
  \<^verbatim>\<open>randomBytes(n)\<close> of Node's \<^verbatim>\<open>crypto\<close>: the next \<open>n\<close> bytes of the random
  source; a size above \<open>2^31 - 1 = 2147483647\<close> is refused and draws nothing.
  \<^verbatim>\<open>toString('hex')\<close>: two lower-case hexadecimal digits per byte, high nibble
  first; it throws when the result would be longer than the longest string, which has
  \<open>2^29 - 24 = 536870888\<close> characters. Sizes are natural numbers.
\<close>

definition randomBytes :: "nat \<Rightarrow> world \<Rightarrow> (error + 8 word list) \<times> world" where
  "randomBytes n w =
     (if 2147483647 < n then (Inl SizeOutOfRange, w)
      else (Inr (map (entropy w) [drawn w ..< drawn w + n]), w\<lparr>drawn := drawn w + n\<rparr>))"

definition hexDigit :: "nat \<Rightarrow> char" where
  "hexDigit k = ''0123456789abcdef'' ! k"

definition hexByte :: "8 word \<Rightarrow> string" where
  "hexByte b = [hexDigit (unat b div 16), hexDigit (unat b mod 16)]"

definition hexDigits :: "8 word list \<Rightarrow> string" where
  "hexDigits bs = concat (map hexByte bs)"

definition toString_hex :: "8 word list \<Rightarrow> error + string" where
  "toString_hex bs =
     (if 536870888 < 2 * length bs then Inl StringTooLong else Inr (hexDigits bs))"

text \<open>
  \<^verbatim>\<open>export function generateSessionToken(bytes: number = 32): string {
  return randomBytes(bytes).toString('hex') }\<close>
  An omitted argument is \<open>None\<close>.
\<close>

definition generateSessionToken :: "nat option \<Rightarrow> world \<Rightarrow> (error + string) \<times> world" where
  "generateSessionToken arg w =
     (let bytes = (case arg of None \<Rightarrow> 32 | Some n \<Rightarrow> n);
          (r, w') = randomBytes bytes w
      in (case r of Inl e \<Rightarrow> Inl e | Inr bs \<Rightarrow> toString_hex bs, w'))"

subsection \<open>Session expiry\<close>

text \<open>
  \<^verbatim>\<open>export function generateSessionExpiry(hours: number = 24): Date {
  return new Date(Date.now() + hours * 60 * 60 * 1000) }\<close>
  The second argument is what \<^verbatim>\<open>Date.now()\<close> returns at the call.
\<close>

definition generateSessionExpiry :: "int option \<Rightarrow> int \<Rightarrow> js_date" where
  "generateSessionExpiry arg now =
     (let hours = (case arg of None \<Rightarrow> 24 | Some h \<Rightarrow> h)
      in new_Date (now + hours * 60 * 60 * 1000))"

subsection \<open>Password hashing\<close>

text \<open>
  Modelled from the spec: \<^verbatim>\<open>bcrypt.hash\<close> and \<^verbatim>\<open>bcrypt.compare\<close> belong to the
  \<^verbatim>\<open>bcrypt\<close> package, which the snippets import and the repository does not contain.
  The specification (Credential Hasher) describes them: \<^emph>\<open>hash\<close> applies a salted
  one-way function with a work factor and produces a self-describing digest, with the
  salt and the cost factor embedded in the output; \<^emph>\<open>verify\<close> recomputes the hash
  using the parameters embedded in the digest and compares, never fails on a mismatch and
  signals an error only on a malformed digest. The one-way function is the parameter
  \<open>kdf\<close> (cost, salt, plaintext to hash text). The layout of the digest is the one
  of bcrypt: the prefix \<^verbatim>\<open>$2b$\<close>, the cost as two decimal digits, \<^verbatim>\<open>$\<close>, the salt
  in 22 characters, then the hash text. Called with a number of rounds,
  \<^verbatim>\<open>bcrypt.hash\<close> first generates the salt: it draws 16 bytes with
  \<^verbatim>\<open>crypto.randomBytes\<close>, from the same random source as the session tokens, and
  writes them in the radix-64 alphabet of bcrypt (three bytes to four characters, so 16
  bytes to 22 characters).
\<close>

type_synonym kdf = "nat \<Rightarrow> string \<Rightarrow> string \<Rightarrow> string"

definition twoDigits :: "nat \<Rightarrow> string" where
  "twoDigits n = [char_of (48 + n div 10 mod 10), char_of (48 + n mod 10)]"

definition digitValue :: "char \<Rightarrow> nat option" where
  "digitValue c =
     (let k = (of_char c :: nat) in if 48 \<le> k \<and> k \<le> 57 then Some (k - 48) else None)"

definition bcrypt_hash :: "kdf \<Rightarrow> string \<Rightarrow> string \<Rightarrow> nat \<Rightarrow> string" where
  "bcrypt_hash f salt data rounds =
     ''$2b$'' @ twoDigits rounds @ ''$'' @ salt @ f rounds salt data"

definition parseDigest :: "string \<Rightarrow> (nat \<times> string \<times> string) option" where
  "parseDigest d =
     (if take 4 d = ''$2b$'' \<and> 29 \<le> length d \<and> d ! 6 = CHR ''$'' then
        (case (digitValue (d ! 4), digitValue (d ! 5)) of
           (Some a, Some b) \<Rightarrow> Some (10 * a + b, take 22 (drop 7 d), drop 29 d)
         | _ \<Rightarrow> None)
      else None)"

definition radix64 :: "nat \<Rightarrow> char" where
  "radix64 k = ''./ABCDEFGHIJKLMNOPQRSTUVWXYZabcdefghijklmnopqrstuvwxyz0123456789'' ! k"

fun encode_base64 :: "8 word list \<Rightarrow> string" where
  "encode_base64 (a # b # c # bs) =
     [radix64 (unat a div 4), radix64 (unat a mod 4 * 16 + unat b div 16),
      radix64 (unat b mod 16 * 4 + unat c div 64), radix64 (unat c mod 64)]
     @ encode_base64 bs"
| "encode_base64 [a, b] =
     [radix64 (unat a div 4), radix64 (unat a mod 4 * 16 + unat b div 16),
      radix64 (unat b mod 16 * 4)]"
| "encode_base64 [a] = [radix64 (unat a div 4), radix64 (unat a mod 4 * 16)]"
| "encode_base64 [] = []"

definition bcrypt_genSalt :: "world \<Rightarrow> (error + string) \<times> world" where
  "bcrypt_genSalt w =
     (let (r, w') = randomBytes 16 w
      in (case r of Inl e \<Rightarrow> Inl e | Inr bs \<Rightarrow> Inr (encode_base64 bs), w'))"

definition bcrypt_hash_rounds ::
  "kdf \<Rightarrow> string \<Rightarrow> nat \<Rightarrow> world \<Rightarrow> (error + string) \<times> world" where
  "bcrypt_hash_rounds f data rounds w =
     (let (r, w') = bcrypt_genSalt w
      in (case r of Inl e \<Rightarrow> Inl e | Inr salt \<Rightarrow> Inr (bcrypt_hash f salt data rounds), w'))"

definition bcrypt_compare :: "kdf \<Rightarrow> string \<Rightarrow> string \<Rightarrow> error + bool" where
  "bcrypt_compare f data d =
     (case parseDigest d of
        None \<Rightarrow> Inl MalformedDigest
      | Some (cost, salt, h) \<Rightarrow> Inr (f cost salt data = h))"

text \<open>
  \<^verbatim>\<open>export function hashPassword(password: string): Promise<string> {
  const saltRounds = 10; return bcrypt.hash(password, saltRounds) }\<close>
  (\<^verbatim>\<open>hash-password.ts\<close>, and with the same body \<^verbatim>\<open>utils/hash.ts\<close>).
\<close>

definition hashPassword :: "kdf \<Rightarrow> string \<Rightarrow> world \<Rightarrow> (error + string) \<times> world" where
  "hashPassword f pw w =
     (let saltRounds = 10 in bcrypt_hash_rounds f pw saltRounds w)"

text \<open>
  \<^verbatim>\<open>export function verifyPassword(password: string, hash: string): Promise<boolean> {
  return bcrypt.compare(password, hash) }\<close>
\<close>

definition verifyPassword :: "kdf \<Rightarrow> string \<Rightarrow> string \<Rightarrow> error + bool" where
  "verifyPassword f pw hash = bcrypt_compare f pw hash"

section \<open>The Prisma client\<close>

text \<open>
  The calls of the snippets on \<^verbatim>\<open>prisma.session\<close> and \<^verbatim>\<open>db.user\<close>, on the tables
  of the world. A failed call leaves the world as it was.

  \<^verbatim>\<open>create\<close> fills the columns that have a \<^verbatim>\<open>@default\<close> (\<^verbatim>\<open>cuid()\<close>,
  \<^verbatim>\<open>now()\<close>, \<^verbatim>\<open>USER\<close>, \<^verbatim>\<open>0\<close>) and \<^verbatim>\<open>@updatedAt\<close>, and enforces \<^verbatim>\<open>@id\<close>,
  \<^verbatim>\<open>@unique\<close> and \<^verbatim>\<open>@relation\<close>.
\<close>

definition session_create ::
  "string \<Rightarrow> string \<Rightarrow> js_date \<Rightarrow> string option \<Rightarrow> string option \<Rightarrow> int \<Rightarrow> world
     \<Rightarrow> (error + Session) \<times> world" where
  "session_create uid tok exp ip ua now w =
     (case exp of
        InvalidDate \<Rightarrow> (Inl InvalidDateArgument, w)
      | Date t \<Rightarrow>
          (let s = \<lparr>session_id = cuids w (issued w), userId = uid, sessionToken = tok,
                    expiresAt = t, ipAddress = ip, userAgent = ua, lastActiveAt = now,
                    session_createdAt = now, session_updatedAt = now\<rparr>
           in if session_id s \<in> set (map session_id (sessions w))
                 \<or> tok \<in> set (map sessionToken (sessions w))
              then (Inl UniqueConstraintFailed, w)
              else if uid \<notin> set (map user_id (users w))
              then (Inl ForeignKeyConstraintFailed, w)
              else (Inr s, w\<lparr>sessions := sessions w @ [s], issued := Suc (issued w)\<rparr>)))"

definition user_create ::
  "string \<Rightarrow> string \<Rightarrow> string \<Rightarrow> int \<Rightarrow> world \<Rightarrow> (error + User) \<times> world" where
  "user_create mail pw name now w =
     (let u = \<lparr>user_id = cuids w (issued w), username = name, email = mail,
               password = pw, role = USER, lastLoginAt = None, failedLoginAttempts = 0,
               user_createdAt = now, user_updatedAt = now\<rparr>
      in if user_id u \<in> set (map user_id (users w))
            \<or> mail \<in> set (map email (users w))
            \<or> name \<in> set (map username (users w))
         then (Inl UniqueConstraintFailed, w)
         else (Inr u, w\<lparr>users := users w @ [u], issued := Suc (issued w)\<rparr>))"

text \<open>
  \<^verbatim>\<open>delete({ where: { sessionToken } })\<close> removes the selected row and resolves to it;
  it rejects when the \<^verbatim>\<open>where\<close> selects no row.
\<close>

definition session_delete :: "string \<Rightarrow> world \<Rightarrow> (error + Session) \<times> world" where
  "session_delete tok w =
     (case find (\<lambda>s. sessionToken s = tok) (sessions w) of
        None \<Rightarrow> (Inl RecordNotFound, w)
      | Some s \<Rightarrow> (Inr s, w\<lparr>sessions := remove1 s (sessions w)\<rparr>))"

text \<open>
  \<^verbatim>\<open>findUnique({ where: { sessionToken, expiresAt: { gt: d } }, include: { user: true } })\<close>
  resolves to the row that has the token and an \<^verbatim>\<open>expiresAt\<close> greater than \<open>d\<close>,
  together with the row of \<^verbatim>\<open>users\<close> its \<^verbatim>\<open>userId\<close> references, or to \<^verbatim>\<open>null\<close>
  (\<open>None\<close>). The relation \<^verbatim>\<open>user\<close> is required, so a missing target is an error.
\<close>

definition session_findUnique ::
  "string \<Rightarrow> int \<Rightarrow> world \<Rightarrow> error + (Session \<times> User) option" where
  "session_findUnique tok d w =
     (case find (\<lambda>s. sessionToken s = tok \<and> d < expiresAt s) (sessions w) of
        None \<Rightarrow> Inr None
      | Some s \<Rightarrow>
          (case find (\<lambda>u. user_id u = userId s) (users w) of
             None \<Rightarrow> Inl InconsistentQueryResult
           | Some u \<Rightarrow> Inr (Some (s, u))))"

section \<open>Queries and mutations\<close>

text \<open>
  \<^verbatim>\<open>export function createSession(userId: string, ipAddress?: string, userAgent?: string) {
  return prisma.session.create({ data: { userId,
    sessionToken: generateSessionToken(), expiresAt: generateSessionExpiry(),
    ipAddress, userAgent } }) }\<close>
\<close>

definition createSession ::
  "string \<Rightarrow> string option \<Rightarrow> string option \<Rightarrow> int \<Rightarrow> world \<Rightarrow> (error + Session) \<times> world" where
  "createSession uid ip ua now w =
     (let (t, w') = generateSessionToken None w
      in case t of
           Inl e \<Rightarrow> (Inl e, w')
         | Inr tok \<Rightarrow> session_create uid tok (generateSessionExpiry None now) ip ua now w')"

text \<open>
  \<^verbatim>\<open>export function invalidateSession(sessionToken: string) {
  return prisma.session.delete({ where: { sessionToken } }) }\<close>
\<close>

definition invalidateSession :: "string \<Rightarrow> world \<Rightarrow> (error + Session) \<times> world" where
  "invalidateSession tok w = session_delete tok w"

text \<open>
  \<^verbatim>\<open>getValidSession\<close> is given twice, under \<^verbatim>\<open>server/mutation\<close> and under
  \<^verbatim>\<open>server/queries\<close>; each is
  \<^verbatim>\<open>return prisma.session.findUnique({ where: { sessionToken,
    expiresAt: { gt: new Date() } }, include: { user: true } })\<close>.
  \<open>now\<close> is the time value of \<^verbatim>\<open>new Date()\<close>.
\<close>

definition getValidSession_mutation ::
  "string \<Rightarrow> int \<Rightarrow> world \<Rightarrow> error + (Session \<times> User) option" where
  "getValidSession_mutation tok now w = session_findUnique tok now w"

definition getValidSession_queries ::
  "string \<Rightarrow> int \<Rightarrow> world \<Rightarrow> error + (Session \<times> User) option" where
  "getValidSession_queries tok now w = session_findUnique tok now w"

text \<open>
  \<^verbatim>\<open>export async function registerUser(email: string, password: string, username: string) {
  const hashedPassword = await hashPassword(password)
  return db.user.create({ data: { email, password: hashedPassword, username } }) }\<close>
\<close>

definition registerUser ::
  "kdf \<Rightarrow> string \<Rightarrow> string \<Rightarrow> string \<Rightarrow> int \<Rightarrow> world \<Rightarrow> (error + User) \<times> world" where
  "registerUser f mail pw name now w =
     (let (h, w') = hashPassword f pw w
      in case h of
           Inl e \<Rightarrow> (Inl e, w')
         | Inr hashedPassword \<Rightarrow> user_create mail hashedPassword name now w')"

section \<open>Constraints of the schema\<close>

text \<open>
  What the schema declares and the database enforces on every write:
  \<^verbatim>\<open>sessionToken String @unique\<close>, \<^verbatim>\<open>id String @id\<close> on \<^verbatim>\<open>User\<close>, and
  \<^verbatim>\<open>user User @relation(fields: [userId], references: [id])\<close>.
\<close>

definition schema_constraints :: "world \<Rightarrow> bool" where
  "schema_constraints w \<longleftrightarrow>
     distinct (map sessionToken (sessions w))
     \<and> distinct (map user_id (users w))
     \<and> list_all (\<lambda>s. userId s \<in> set (map user_id (users w))) (sessions w)"

section \<open>The session accessor as the specification words it\<close>

text \<open>
  The specification (Session Store Accessor) asks of \<^verbatim>\<open>createSession\<close> that a write
  rejected for a duplicate token be handled as a retryable condition: regenerate the
  token and retry once, then surface the error. This definition follows those words; it
  is compared with \<open>createSession\<close> above, which follows the snippet.
\<close>

definition createSession_spec ::
  "string \<Rightarrow> string option \<Rightarrow> string option \<Rightarrow> int \<Rightarrow> world \<Rightarrow> (error + Session) \<times> world" where
  "createSession_spec uid ip ua now w =
     (let exp = generateSessionExpiry None now;
          (t, w1) = generateSessionToken None w
      in case t of
           Inl e \<Rightarrow> (Inl e, w1)
         | Inr tok \<Rightarrow>
             (let r = session_create uid tok exp ip ua now w1
              in if fst r = Inl UniqueConstraintFailed
                 then (let (t', w2) = generateSessionToken None (snd r)
                       in case t' of
                            Inl e \<Rightarrow> (Inl e, w2)
                          | Inr tok' \<Rightarrow> session_create uid tok' exp ip ua now w2)
                 else r))"

section \<open>The Register flow as the specification words it\<close>



section \<open>Example worlds\<close>

text \<open>
  A world with one user and one session. Its random source yields the bytes
  \<open>0, 1, 2, \<dots>\<close>, so the next token drawn is the one the stored session already has;
  the session expires at time \<open>5000\<close>.
\<close>

definition bob :: User where
  "bob = \<lparr>user_id = ''u1'', username = ''bob'', email = ''bob@x.com'',
          password = ''$2b$10$abcdefghijklmnopqrstuvXYZ'', role = USER, lastLoginAt = None,
          failedLoginAttempts = 0, user_createdAt = 0, user_updatedAt = 0\<rparr>"

definition bob_session :: Session where
  "bob_session = \<lparr>session_id = ''s1'', userId = ''u1'',
      sessionToken = ''000102030405060708090a0b0c0d0e0f101112131415161718191a1b1c1d1e1f'',
      expiresAt = 5000, ipAddress = None, userAgent = None, lastActiveAt = 0,
      session_createdAt = 0, session_updatedAt = 0\<rparr>"

definition example_world :: world where
  "example_world = \<lparr>users = [bob], sessions = [bob_session], entropy = of_nat, drawn = 0,
      cuids = (\<lambda>n. replicate (Suc n) (CHR ''c'')), issued = 0\<rparr>"

definition example_kdf :: kdf where
  "example_kdf cost salt pw = rev pw @ salt"



section \<open>Auxiliary facts\<close>

subsection \<open>Random bytes and their hexadecimal encoding\<close>

lemma hexDigit_mem: "k < 16 \<Longrightarrow> hexDigit k \<in> set ''0123456789abcdef''"
  unfolding hexDigit_def by (rule nth_mem) simp

lemma length_hexDigits: "length (hexDigits bs) = 2 * length bs"
  by (induction bs) (simp_all add: hexDigits_def hexByte_def)

lemma set_hexByte: "set (hexByte b) \<subseteq> set ''0123456789abcdef''"
proof -
  define H where "H = set ''0123456789abcdef''"
  have "unat b < 256" using unsigned_less [of b, where ?'a = nat] by simp
  then have "unat b div 16 < 16" and "unat b mod 16 < 16" by simp_all
  then have "hexDigit (unat b div 16) \<in> H" and "hexDigit (unat b mod 16) \<in> H"
    unfolding H_def by (simp_all only: hexDigit_mem)
  then have "set (hexByte b) \<subseteq> H" by (simp add: hexByte_def)
  then show ?thesis unfolding H_def .
qed

lemma set_hexDigits: "set (hexDigits bs) \<subseteq> set ''0123456789abcdef''"
  unfolding hexDigits_def using set_hexByte by (induction bs) auto

lemma randomBytes_in_range:
  "n \<le> 2147483647 \<Longrightarrow>
   randomBytes n w
     = (Inr (map (entropy w) [drawn w ..< drawn w + n]), w\<lparr>drawn := drawn w + n\<rparr>)"
  by (simp add: randomBytes_def)

lemma randomBytes_refused:
  "2147483647 < n \<Longrightarrow> randomBytes n w = (Inl SizeOutOfRange, w)"
  by (simp add: randomBytes_def)

lemma generateSessionToken_in_range:
  "n \<le> 268435444 \<Longrightarrow>
   generateSessionToken (Some n) w
     = (Inr (hexDigits (map (entropy w) [drawn w ..< drawn w + n])),
        w\<lparr>drawn := drawn w + n\<rparr>)"
  by (simp add: generateSessionToken_def randomBytes_def toString_hex_def)

lemma generateSessionToken_default:
  "generateSessionToken None w
     = (Inr (hexDigits (map (entropy w) [drawn w ..< drawn w + 32])),
        w\<lparr>drawn := drawn w + 32\<rparr>)"
  by (simp add: generateSessionToken_def randomBytes_def toString_hex_def)

lemma generateSessionToken_too_long:
  "268435444 < n \<Longrightarrow> n \<le> 2147483647 \<Longrightarrow>
   fst (generateSessionToken (Some n) w) = Inl StringTooLong"
  by (simp add: generateSessionToken_def randomBytes_def toString_hex_def)

lemma generateSessionToken_refused:
  "2147483647 < n \<Longrightarrow> generateSessionToken (Some n) w = (Inl SizeOutOfRange, w)"
  by (simp add: generateSessionToken_def randomBytes_def)

subsection \<open>The digest layout and the salt\<close>

lemma twoDigits_10: "twoDigits 10 = ''10''"
  by code_simp

lemma digitValue_char_of: "k < 10 \<Longrightarrow> digitValue (char_of (48 + k)) = Some k"
  by (simp add: digitValue_def Let_def)

lemma parseDigest_bcrypt_hash:
  assumes "length salt = 22" and "rounds < 100"
  shows "parseDigest (bcrypt_hash f salt data rounds) = Some (rounds, salt, f rounds salt data)"
proof -
  have a: "rounds div 10 mod 10 = rounds div 10" using assms(2) by simp
  have "digitValue (char_of (48 + rounds div 10 mod 10)) = Some (rounds div 10)"
    using digitValue_char_of [of "rounds div 10 mod 10"] a by simp
  moreover have "digitValue (char_of (48 + rounds mod 10)) = Some (rounds mod 10)"
    by (rule digitValue_char_of) simp
  ultimately show ?thesis
    using assms(1) by (simp add: parseDigest_def bcrypt_hash_def twoDigits_def)
qed

lemma length_encode_base64: "length (encode_base64 bs) = (4 * length bs + 2) div 3"
  by (induction bs rule: encode_base64.induct) simp_all

lemma bcrypt_genSalt_eq:
  "bcrypt_genSalt w
     = (Inr (encode_base64 (map (entropy w) [drawn w ..< drawn w + 16])),
        w\<lparr>drawn := drawn w + 16\<rparr>)"
  by (simp add: bcrypt_genSalt_def randomBytes_def)

lemma length_genSalt:
  "length (encode_base64 (map (entropy w) [drawn w ..< drawn w + 16])) = 22"
  by (simp add: length_encode_base64)

lemma hashPassword_eq:
  "hashPassword f pw w
     = (Inr (bcrypt_hash f (encode_base64 (map (entropy w) [drawn w ..< drawn w + 16])) pw 10),
        w\<lparr>drawn := drawn w + 16\<rparr>)"
  by (simp add: hashPassword_def bcrypt_hash_rounds_def bcrypt_genSalt_eq)

lemma verify_bcrypt_hash:
  "length salt = 22 \<Longrightarrow> verifyPassword f p (bcrypt_hash f salt p 10) = Inr True"
  by (simp add: verifyPassword_def bcrypt_compare_def parseDigest_bcrypt_hash)

subsection \<open>Lookups by a unique column\<close>

lemma find_unique:
  assumes "distinct (map f xs)" and "x \<in> set xs" and "P x"
    and "\<And>y. y \<in> set xs \<Longrightarrow> P y \<Longrightarrow> f y = f x"
  shows "find P xs = Some x"
  using assms
proof (induction xs)
  case Nil
  then show ?case by simp
next
  case (Cons a xs)
  from Cons.prems(1) have na: "f a \<notin> f ` set xs" and dx: "distinct (map f xs)"
    by simp_all
  show ?case
  proof (cases "P a")
    case True
    have "f a = f x" by (rule Cons.prems(4)) (simp_all add: True)
    have "x \<notin> set xs"
    proof
      assume "x \<in> set xs"
      then have "f x \<in> f ` set xs" by (rule imageI)
      with \<open>f a = f x\<close> na show False by simp
    qed
    with Cons.prems(2) have "a = x" by simp
    with True show ?thesis by simp
  next
    case False
    with Cons.prems(3) have "x \<noteq> a" by blast
    with Cons.prems(2) have xin: "x \<in> set xs" by simp
    have "find P xs = Some x"
      by (rule Cons.IH [OF dx xin Cons.prems(3)]) (simp add: Cons.prems(4))
    with False show ?thesis by simp
  qed
qed

lemma distinct_map_eqD:
  "distinct (map f xs) \<Longrightarrow> x \<in> set xs \<Longrightarrow> y \<in> set xs \<Longrightarrow> f x = f y \<Longrightarrow> x = y"
  by (simp add: distinct_map inj_on_def)

lemma find_SomeD: "find P xs = Some x \<Longrightarrow> x \<in> set xs \<and> P x"
  by (induction xs) (auto split: if_splits)

lemma find_token_None:
  "tok \<notin> set (map sessionToken (sessions w))
   \<Longrightarrow> find (\<lambda>s. sessionToken s = tok) (sessions w) = None"
  by (auto simp add: find_None_iff)

lemma token_removed:
  assumes "distinct (map sessionToken xs)" and "s \<in> set xs"
  shows "sessionToken s \<notin> set (map sessionToken (remove1 s xs))"
  using assms
proof (induction xs)
  case Nil
  then show ?case by simp
next
  case (Cons a xs)
  show ?case
  proof (cases "a = s")
    case True
    with Cons.prems(1) show ?thesis by simp
  next
    case False
    with Cons.prems have "s \<in> set xs" and "distinct (map sessionToken xs)"
      and "sessionToken a \<notin> sessionToken ` set xs" by simp_all
    then have "sessionToken s \<notin> set (map sessionToken (remove1 s xs))"
      and "sessionToken a \<noteq> sessionToken s"
      using Cons.IH by (simp, blast)
    with False show ?thesis by simp
  qed
qed

lemma find_in_set_Some:
  assumes "x \<in> set xs" and "P x"
  shows "\<exists>y. find P xs = Some y"
  using assms by (induction xs) auto

lemma mem_map_obtain:
  assumes "k \<in> set (map f xs)"
  shows "\<exists>x. x \<in> set xs \<and> f x = k"
  using assms by (induction xs) auto

subsection \<open>Single calls\<close>

lemma registerUser_Inr:
  assumes "registerUser f mail p name now w = (Inr u, w')"
  shows "users w' = users w @ [u]" and "sessions w' = sessions w"
    and "fst (hashPassword f p w) = Inr (password u)"
    and "drawn w' = drawn w + 16"
    and "user_id u \<notin> set (map user_id (users w))"
  using assms
  by (auto simp add: registerUser_def hashPassword_eq user_create_def Let_def
      split: if_splits)


lemma createSession_Inl:
  assumes "fst (createSession uid ip ua now w) = Inl e"
  shows "users (snd (createSession uid ip ua now w)) = users w"
    and "sessions (snd (createSession uid ip ua now w)) = sessions w"
    and "drawn (snd (createSession uid ip ua now w)) = drawn w + 32"
  using assms
  by (auto simp add: createSession_def generateSessionToken_default session_create_def
      Let_def split: js_date.splits if_splits)

lemma createSession_duplicate:
  assumes "fst (generateSessionToken None w) = Inr tok"
    and "tok \<in> set (map sessionToken (sessions w))"
    and "\<bar>now + 86400000\<bar> \<le> 8640000000000000"
  shows "fst (createSession uid ip ua now w) = Inl UniqueConstraintFailed"
  using assms
  by (simp add: createSession_def generateSessionToken_default session_create_def
      generateSessionExpiry_def new_Date_def Let_def)

lemma invalidateSession_missing:
  "tok \<notin> set (map sessionToken (sessions w))
   \<Longrightarrow> invalidateSession tok w = (Inl RecordNotFound, w)"
  by (simp add: invalidateSession_def session_delete_def find_token_None)

lemma invalidateSession_present:
  assumes "distinct (map sessionToken (sessions w))"
    and "s \<in> set (sessions w)" and "sessionToken s = tok"
  shows "invalidateSession tok w = (Inr s, w\<lparr>sessions := remove1 s (sessions w)\<rparr>)"
proof -
  have "find (\<lambda>s. sessionToken s = tok) (sessions w) = Some s"
    by (rule find_unique [where f = sessionToken]) (simp_all add: assms)
  then show ?thesis by (simp add: invalidateSession_def session_delete_def)
qed

lemma getValidSession_mutation_absent:
  "\<not> (\<exists>s \<in> set (sessions w). sessionToken s = tok \<and> now < expiresAt s)
   \<Longrightarrow> getValidSession_mutation tok now w = Inr None"
proof -
  assume "\<not> (\<exists>s \<in> set (sessions w). sessionToken s = tok \<and> now < expiresAt s)"
  then have "find (\<lambda>s. sessionToken s = tok \<and> now < expiresAt s) (sessions w) = None"
    by (simp add: find_None_iff)
  then show ?thesis
    by (simp add: getValidSession_mutation_def session_findUnique_def)
qed

lemma getValidSession_mutation_Some_iff:
  assumes "schema_constraints w"
  shows "getValidSession_mutation tok now w = Inr (Some (s, u)) \<longleftrightarrow>
     s \<in> set (sessions w) \<and> sessionToken s = tok \<and> now < expiresAt s
     \<and> u \<in> set (users w) \<and> user_id u = userId s"
proof
  assume "getValidSession_mutation tok now w = Inr (Some (s, u))"
  then have "find (\<lambda>s. sessionToken s = tok \<and> now < expiresAt s) (sessions w) = Some s"
    and "find (\<lambda>u. user_id u = userId s) (users w) = Some u"
    by (auto simp add: getValidSession_mutation_def session_findUnique_def split: option.splits)
  then show "s \<in> set (sessions w) \<and> sessionToken s = tok \<and> now < expiresAt s
     \<and> u \<in> set (users w) \<and> user_id u = userId s"
    by (auto dest: find_SomeD)
next
  assume a: "s \<in> set (sessions w) \<and> sessionToken s = tok \<and> now < expiresAt s
     \<and> u \<in> set (users w) \<and> user_id u = userId s"
  have "find (\<lambda>s. sessionToken s = tok \<and> now < expiresAt s) (sessions w) = Some s"
    by (rule find_unique [where f = sessionToken])
       (use assms a in \<open>auto simp add: schema_constraints_def\<close>)
  moreover have "find (\<lambda>u. user_id u = userId s) (users w) = Some u"
    by (rule find_unique [where f = user_id])
       (use assms a in \<open>auto simp add: schema_constraints_def\<close>)
  ultimately show "getValidSession_mutation tok now w = Inr (Some (s, u))"
    by (simp add: getValidSession_mutation_def session_findUnique_def)
qed

lemma getValidSession_mutation_no_error:
  assumes "schema_constraints w"
  shows "\<not> isl (getValidSession_mutation tok now w)"
proof (cases "find (\<lambda>s. sessionToken s = tok \<and> now < expiresAt s) (sessions w)")
  case None
  then show ?thesis
    by (simp add: getValidSession_mutation_def session_findUnique_def)
next
  case (Some s)
  then have "s \<in> set (sessions w)" by (rule find_SomeD [THEN conjunct1])
  with assms have "userId s \<in> set (map user_id (users w))"
    unfolding schema_constraints_def list_all_iff by blast
  then obtain x where "x \<in> set (users w)" and "user_id x = userId s"
    using mem_map_obtain by fastforce
  then obtain u where "find (\<lambda>u. user_id u = userId s) (users w) = Some u"
    using find_in_set_Some [of x "users w" "\<lambda>u. user_id u = userId s"] by blast
  with Some show ?thesis
    by (simp add: getValidSession_mutation_def session_findUnique_def)
qed

subsection \<open>The writes keep the constraints of the schema\<close>

lemma schema_constraints_session_create:
  assumes "schema_constraints w"
  shows "schema_constraints (snd (session_create uid tok exp ip ua now w))"
proof (cases exp)
  case InvalidDate
  with assms show ?thesis by (simp add: session_create_def)
next
  case (Date t)
  with assms show ?thesis
    by (simp add: session_create_def schema_constraints_def Let_def)
qed

lemma schema_constraints_createSession:
  assumes "schema_constraints w"
  shows "schema_constraints (snd (createSession uid ip ua now w))"
proof -
  have "schema_constraints (w\<lparr>drawn := drawn w + 32\<rparr>)"
    using assms by (simp add: schema_constraints_def)
  then show ?thesis
    by (simp add: createSession_def generateSessionToken_default
        schema_constraints_session_create)
qed

lemma schema_constraints_registerUser:
  assumes "schema_constraints w"
  shows "schema_constraints (snd (registerUser f mail p name now w))"
  using assms
  by (simp add: registerUser_def hashPassword_eq user_create_def schema_constraints_def
      Let_def list_all_iff)

lemma schema_constraints_invalidateSession:
  assumes "schema_constraints w"
  shows "schema_constraints (snd (invalidateSession tok w))"
proof (cases "find (\<lambda>s. sessionToken s = tok) (sessions w)")
  case None
  with assms show ?thesis by (simp add: invalidateSession_def session_delete_def)
next
  case (Some s)
  have "distinct (map sessionToken (remove1 s (sessions w)))"
    using assms by (simp add: schema_constraints_def distinct_map distinct_remove1 inj_on_def)
  moreover have "list_all (\<lambda>s. userId s \<in> set (map user_id (users w))) (remove1 s (sessions w))"
    using assms set_remove1_subset [of s "sessions w"]
    by (auto simp add: schema_constraints_def list_all_iff)
  ultimately show ?thesis
    using assms Some by (simp add: invalidateSession_def session_delete_def schema_constraints_def)
qed

subsection \<open>The Register flow\<close>









subsection \<open>The example world\<close>

lemmas example_defs = example_world_def bob_def bob_session_def

section \<open>Properties\<close>

subsection \<open>Expiry\<close>

text \<open>
  Claim C8. \<^verbatim>\<open>generateSessionExpiry\<close> depends on the time of the call and on its
  argument only. Called at time \<open>T\<close> (in milliseconds) without an argument it returns
  the date \<open>T + 86400\<close> seconds, and called with \<open>h\<close> hours it returns \<open>T\<close> plus
  \<open>h\<close> hours, whenever that time value lies in the range of \<^verbatim>\<open>Date\<close>.
\<close>

theorem generateSessionExpiry_adds_hours:
  "(\<bar>T + h * 3600000\<bar> \<le> 8640000000000000 \<longrightarrow>
      generateSessionExpiry (Some h) T = Date (T + h * 3600000))
   \<and> (\<bar>T + 86400 * 1000\<bar> \<le> 8640000000000000 \<longrightarrow>
      generateSessionExpiry None T = Date (T + 86400 * 1000))"
  by (simp add: generateSessionExpiry_def new_Date_def mult.commute)

text \<open>The statement at a concrete input.\<close>

theorem generateSessionExpiry_adds_hours_witness:
  "generateSessionExpiry (Some 1) 1000 = Date 3601000
   \<and> generateSessionExpiry None 1000 = Date 86401000"
  using generateSessionExpiry_adds_hours [of 1000 1] by simp

subsection \<open>Token length\<close>

text \<open>
  Claim C9. For every byte length \<open>n\<close> that \<^verbatim>\<open>randomBytes\<close> accepts and whose
  encoding fits a string (\<open>n\<close> at most 268435444), \<^verbatim>\<open>generateSessionToken\<close> returns
  the hexadecimal encoding of \<open>n\<close> bytes of the random source: a string of exactly
  \<open>2 * n\<close> characters, each a hexadecimal digit. Without an argument the string has
  64 characters.
\<close>

theorem generateSessionToken_hex_length:
  "(n \<le> 268435444 \<longrightarrow>
      (\<exists>bs tok. fst (randomBytes n w) = Inr bs \<and> length bs = n
         \<and> fst (generateSessionToken (Some n) w) = Inr tok \<and> tok = hexDigits bs
         \<and> length tok = 2 * n \<and> set tok \<subseteq> set ''0123456789abcdef''))
   \<and> (\<exists>tok. fst (generateSessionToken None w) = Inr tok \<and> length tok = 64
         \<and> set tok \<subseteq> set ''0123456789abcdef'')"
proof (intro conjI impI)
  assume n: "n \<le> 268435444"
  let ?bs = "map (entropy w) [drawn w ..< drawn w + n]"
  have "fst (randomBytes n w) = Inr ?bs"
    using n by (simp add: randomBytes_in_range)
  moreover have "length ?bs = n" by simp
  moreover have "fst (generateSessionToken (Some n) w) = Inr (hexDigits ?bs)"
    using n by (simp add: generateSessionToken_in_range)
  moreover have "length (hexDigits ?bs) = 2 * n" by (simp add: length_hexDigits)
  moreover have "set (hexDigits ?bs) \<subseteq> set ''0123456789abcdef''"
    by (rule set_hexDigits)
  ultimately show "\<exists>bs tok. fst (randomBytes n w) = Inr bs \<and> length bs = n
         \<and> fst (generateSessionToken (Some n) w) = Inr tok \<and> tok = hexDigits bs
         \<and> length tok = 2 * n \<and> set tok \<subseteq> set ''0123456789abcdef''"
    by blast
next
  let ?bs = "map (entropy w) [drawn w ..< drawn w + 32]"
  have "fst (generateSessionToken None w) = Inr (hexDigits ?bs)"
    by (simp add: generateSessionToken_default)
  moreover have "length (hexDigits ?bs) = 64" by (simp add: length_hexDigits)
  moreover have "set (hexDigits ?bs) \<subseteq> set ''0123456789abcdef''"
    by (rule set_hexDigits)
  ultimately show "\<exists>tok. fst (generateSessionToken None w) = Inr tok \<and> length tok = 64
         \<and> set tok \<subseteq> set ''0123456789abcdef''"
    by blast
qed

text \<open>The statement at a concrete input.\<close>

theorem generateSessionToken_hex_length_witness:
  "(3::nat) \<le> 268435444
   \<and> fst (generateSessionToken (Some 3) example_world) = Inr ''000102''
   \<and> length ''000102'' = 2 * 3
   \<and> fst (generateSessionToken None example_world) = Inr (sessionToken bob_session)
   \<and> length (sessionToken bob_session) = 64"
proof -
  have 1: "fst (generateSessionToken (Some 3) example_world) = Inr ''000102''" by code_simp
  have 2: "fst (generateSessionToken None example_world) = Inr (sessionToken bob_session)"
    by code_simp
  have 3: "(3::nat) \<le> 268435444" by simp
  from generateSessionToken_hex_length [of 3 example_world] 1 2 3
  have "length ''000102'' = 2 * 3" and "length (sessionToken bob_session) = 64"
    by auto
  with 1 2 3 show ?thesis by blast
qed

subsection \<open>Hash then verify\<close>

text \<open>
  Claim C2. For every password, \<^verbatim>\<open>hashPassword\<close> returns a digest, and verifying the
  password against that digest succeeds, whatever the random source yields for the
  salt; the same holds for the digest built from any salt of 22 characters.
\<close>

theorem verifyPassword_accepts_own_hash:
  "(\<exists>d. fst (hashPassword f p w) = Inr d \<and> verifyPassword f p d = Inr True)
   \<and> (length salt = 22 \<longrightarrow> verifyPassword f p (bcrypt_hash f salt p 10) = Inr True)"
proof (intro conjI impI)
  let ?salt = "encode_base64 (map (entropy w) [drawn w ..< drawn w + 16])"
  have "fst (hashPassword f p w) = Inr (bcrypt_hash f ?salt p 10)"
    by (simp add: hashPassword_eq)
  moreover have "verifyPassword f p (bcrypt_hash f ?salt p 10) = Inr True"
    using length_genSalt by (rule verify_bcrypt_hash)
  ultimately show "\<exists>d. fst (hashPassword f p w) = Inr d \<and> verifyPassword f p d = Inr True"
    by blast
next
  assume "length salt = 22"
  then show "verifyPassword f p (bcrypt_hash f salt p 10) = Inr True"
    by (rule verify_bcrypt_hash)
qed

text \<open>The statement at a concrete input.\<close>

theorem verifyPassword_accepts_own_hash_witness:
  "length ''saltsaltsaltsaltsaltsa'' = 22
   \<and> verifyPassword example_kdf ''pw123!''
        (bcrypt_hash example_kdf ''saltsaltsaltsaltsaltsa'' ''pw123!'' 10) = Inr True
   \<and> fst (hashPassword example_kdf ''pw123!'' example_world)
        = Inr ''$2b$10$..CA.uOD/eaGAOmJB.yMBu!321wp..CA.uOD/eaGAOmJB.yMBu''
   \<and> verifyPassword example_kdf ''pw123!''
        ''$2b$10$..CA.uOD/eaGAOmJB.yMBu!321wp..CA.uOD/eaGAOmJB.yMBu'' = Inr True"
proof -
  have 1: "fst (hashPassword example_kdf ''pw123!'' example_world)
        = Inr ''$2b$10$..CA.uOD/eaGAOmJB.yMBu!321wp..CA.uOD/eaGAOmJB.yMBu''" by code_simp
  from verifyPassword_accepts_own_hash
    [of example_kdf "''pw123!''" example_world "''saltsaltsaltsaltsaltsa''"] 1
  show ?thesis by simp
qed

subsection \<open>Verification never fails on a mismatch\<close>

text \<open>
  Claim C6. For every plaintext and every well-formed digest (one that
  \<open>parseDigest\<close> accepts, whatever its cost and salt), \<^verbatim>\<open>verifyPassword\<close> returns
  a boolean and never an error: true when the hash text recomputed from the plaintext
  with the embedded cost and salt is the embedded one, and false when it differs. An
  error is returned only for a digest that is not well-formed. Every digest that
  \<^verbatim>\<open>hashPassword\<close> produces is well-formed.
\<close>

theorem verifyPassword_false_on_mismatch:
  "(parseDigest d = Some (c, s, h) \<longrightarrow> verifyPassword f p d = Inr (f c s p = h))
   \<and> (parseDigest d = Some (c, s, h) \<longrightarrow> f c s p \<noteq> h \<longrightarrow> verifyPassword f p d = Inr False)
   \<and> (parseDigest d \<noteq> None \<longrightarrow>
        verifyPassword f p d = Inr True \<or> verifyPassword f p d = Inr False)
   \<and> (verifyPassword f p d = Inl e \<longrightarrow> e = MalformedDigest \<and> parseDigest d = None)
   \<and> (length salt = 22 \<longrightarrow> parseDigest (bcrypt_hash f salt q 10) \<noteq> None)
   \<and> (length salt = 22 \<longrightarrow> f 10 salt p \<noteq> f 10 salt q \<longrightarrow>
        verifyPassword f p (bcrypt_hash f salt q 10) = Inr False)
   \<and> (\<exists>d'. fst (hashPassword f q w) = Inr d' \<and> parseDigest d' \<noteq> None)"
proof -
  have "\<exists>d'. fst (hashPassword f q w) = Inr d' \<and> parseDigest d' \<noteq> None"
    using length_genSalt [of w]
    by (simp add: hashPassword_eq parseDigest_bcrypt_hash)
  then show ?thesis
    by (auto simp add: verifyPassword_def bcrypt_compare_def parseDigest_bcrypt_hash
        split: option.splits)
qed

text \<open>The statement at a concrete input.\<close>

theorem verifyPassword_false_on_mismatch_witness:
  "parseDigest ''$2b$12$abcdefghijklmnopqrstuvXYZ'' = Some (12, ''abcdefghijklmnopqrstuv'', ''XYZ'')
   \<and> verifyPassword example_kdf ''pw123!'' ''$2b$12$abcdefghijklmnopqrstuvXYZ'' = Inr False
   \<and> verifyPassword example_kdf ''pw123!'' (password bob) = Inr False
   \<and> parseDigest ''pw123!'' = None
   \<and> verifyPassword example_kdf ''pw123!''
        (bcrypt_hash example_kdf ''saltsaltsaltsaltsaltsa'' ''hunter2'' 10) = Inr False"
proof -
  have 0: "parseDigest ''$2b$12$abcdefghijklmnopqrstuvXYZ''
      = Some (12, ''abcdefghijklmnopqrstuv'', ''XYZ'')" by code_simp
  have m: "example_kdf 12 ''abcdefghijklmnopqrstuv'' ''pw123!'' \<noteq> ''XYZ''" by code_simp
  have 1: "parseDigest (password bob) \<noteq> None" by code_simp
  have 2: "verifyPassword example_kdf ''pw123!'' (password bob) \<noteq> Inr True" by code_simp
  have 3: "parseDigest ''pw123!'' = None" by code_simp
  have 4: "example_kdf 10 ''saltsaltsaltsaltsaltsa'' ''pw123!''
      \<noteq> example_kdf 10 ''saltsaltsaltsaltsaltsa'' ''hunter2''" by code_simp
  have "verifyPassword example_kdf ''pw123!'' ''$2b$12$abcdefghijklmnopqrstuvXYZ'' = Inr False"
    using verifyPassword_false_on_mismatch
      [where d = "''$2b$12$abcdefghijklmnopqrstuvXYZ''" and c = 12
        and s = "''abcdefghijklmnopqrstuv''" and h = "''XYZ''" and f = example_kdf
        and p = "''pw123!''"] 0 m
    by blast
  moreover have "verifyPassword example_kdf ''pw123!'' (password bob) = Inr False"
    using verifyPassword_false_on_mismatch
      [where d = "password bob" and f = example_kdf and p = "''pw123!''"] 1 2
    by blast
  moreover have "verifyPassword example_kdf ''pw123!''
        (bcrypt_hash example_kdf ''saltsaltsaltsaltsaltsa'' ''hunter2'' 10) = Inr False"
    using verifyPassword_false_on_mismatch
      [where f = example_kdf and salt = "''saltsaltsaltsaltsaltsa''"
        and p = "''pw123!''" and q = "''hunter2''"] 4
    by simp
  ultimately show ?thesis using 0 3 by simp
qed

subsection \<open>The session validator\<close>

text \<open>
  Claim C1. In a world that satisfies the constraints of the schema, and for every token
  and every time of the call, \<^verbatim>\<open>getValidSession\<close> is never rejected; it resolves to
  \<^verbatim>\<open>null\<close> when no
  session row has the token, and to the same \<^verbatim>\<open>null\<close> when the row that has the token
  has \<^verbatim>\<open>expiresAt\<close> at or before the time of the call; it resolves to a session
  together with a user exactly when that session is a stored row with the token and an
  \<^verbatim>\<open>expiresAt\<close> strictly after the time of the call, and the user is the stored row
  its \<^verbatim>\<open>userId\<close> references.
\<close>

theorem getValidSession_valid_or_absent:
  assumes "schema_constraints w"
  shows "(tok \<notin> set (map sessionToken (sessions w)) \<longrightarrow>
            getValidSession_mutation tok now w = Inr None)
    \<and> (s \<in> set (sessions w) \<and> sessionToken s = tok \<and> expiresAt s \<le> now \<longrightarrow>
            getValidSession_mutation tok now w = Inr None)
    \<and> (getValidSession_mutation tok now w = Inr (Some (s, u)) \<longleftrightarrow>
            s \<in> set (sessions w) \<and> sessionToken s = tok \<and> now < expiresAt s
            \<and> u \<in> set (users w) \<and> user_id u = userId s)
    \<and> \<not> isl (getValidSession_mutation tok now w)"
proof (intro conjI impI)
  show "\<not> isl (getValidSession_mutation tok now w)"
    using assms by (rule getValidSession_mutation_no_error)
next
  assume "tok \<notin> set (map sessionToken (sessions w))"
  then show "getValidSession_mutation tok now w = Inr None"
    by (intro getValidSession_mutation_absent) auto
next
  assume a: "s \<in> set (sessions w) \<and> sessionToken s = tok \<and> expiresAt s \<le> now"
  then have a1: "s \<in> set (sessions w)" and a2: "sessionToken s = tok"
    and a3: "expiresAt s \<le> now" by blast+
  have d: "distinct (map sessionToken (sessions w))"
    using assms unfolding schema_constraints_def by blast
  have "\<not> (\<exists>s' \<in> set (sessions w). sessionToken s' = tok \<and> now < expiresAt s')"
  proof
    assume "\<exists>s' \<in> set (sessions w). sessionToken s' = tok \<and> now < expiresAt s'"
    then obtain s' where b1: "s' \<in> set (sessions w)" and b2: "sessionToken s' = tok"
      and b3: "now < expiresAt s'" by blast
    from b2 a2 have "sessionToken s' = sessionToken s" by (rule trans [OF _ sym])
    with d b1 a1 have "s' = s" by (rule distinct_map_eqD)
    with a3 b3 show False by simp
  qed
  then show "getValidSession_mutation tok now w = Inr None"
    by (rule getValidSession_mutation_absent)
next
  show "getValidSession_mutation tok now w = Inr (Some (s, u)) \<longleftrightarrow>
            s \<in> set (sessions w) \<and> sessionToken s = tok \<and> now < expiresAt s
            \<and> u \<in> set (users w) \<and> user_id u = userId s"
    by (rule getValidSession_mutation_Some_iff [OF assms])
qed

text \<open>The statement at a concrete input.\<close>

theorem getValidSession_valid_or_absent_witness:
  "schema_constraints example_world
   \<and> getValidSession_mutation ''ff'' 4999 example_world = Inr None
   \<and> getValidSession_mutation (sessionToken bob_session) 5000 example_world = Inr None
   \<and> getValidSession_mutation (sessionToken bob_session) 4999 example_world
       = Inr (Some (bob_session, bob))"
proof -
  have c: "schema_constraints example_world"
    by (simp add: schema_constraints_def example_defs)
  have "getValidSession_mutation ''ff'' 4999 example_world = Inr None"
    using getValidSession_valid_or_absent [OF c, where tok = "''ff''" and now = 4999]
    by (simp add: example_defs)
  moreover have "getValidSession_mutation (sessionToken bob_session) 5000 example_world = Inr None"
    using getValidSession_valid_or_absent
      [OF c, where tok = "sessionToken bob_session" and now = 5000 and s = bob_session]
    by (simp add: example_defs)
  moreover have "getValidSession_mutation (sessionToken bob_session) 4999 example_world
       = Inr (Some (bob_session, bob))"
    using getValidSession_valid_or_absent
      [OF c, where tok = "sessionToken bob_session" and now = 4999 and s = bob_session
        and u = bob]
    by (simp add: example_defs)
  ultimately show ?thesis using c by simp
qed

subsection \<open>The two validators\<close>

text \<open>
  Claim C10. The two definitions of \<^verbatim>\<open>getValidSession\<close> (under
  \<^verbatim>\<open>server/mutation\<close> and under \<^verbatim>\<open>server/queries\<close>) return the same result for
  every token, every time of the call and every world.
\<close>

theorem getValidSession_definitions_agree: "getValidSession_mutation tok now w = getValidSession_queries tok now w"
  by (simp add: getValidSession_mutation_def getValidSession_queries_def)

text \<open>The statement at a concrete input.\<close>

theorem getValidSession_definitions_agree_witness:
  "getValidSession_queries (sessionToken bob_session) 4999 example_world
     = Inr (Some (bob_session, bob))"
proof -
  have "getValidSession_mutation (sessionToken bob_session) 4999 example_world
     = Inr (Some (bob_session, bob))" by code_simp
  with getValidSession_definitions_agree [of "sessionToken bob_session" 4999 example_world]
  show ?thesis by simp
qed

subsection \<open>Invalidation\<close>

text \<open>
  Claim C3, as the snippet has it. \<^verbatim>\<open>invalidateSession\<close> is not idempotent. When no
  session row has the token, the call is rejected with the record-not-found error and
  the world is unchanged. When a row has the token, the call removes that row and
  resolves to it, and a second call with the same token is rejected.
\<close>

theorem invalidateSession_rejects_missing_row:
  assumes "distinct (map sessionToken (sessions w))"
  shows "(tok \<notin> set (map sessionToken (sessions w)) \<longrightarrow>
            invalidateSession tok w = (Inl RecordNotFound, w))
    \<and> (s \<in> set (sessions w) \<and> sessionToken s = tok \<longrightarrow>
            invalidateSession tok w = (Inr s, w\<lparr>sessions := remove1 s (sessions w)\<rparr>)
            \<and> invalidateSession tok (snd (invalidateSession tok w))
                = (Inl RecordNotFound, snd (invalidateSession tok w)))"
proof (intro conjI impI)
  assume "tok \<notin> set (map sessionToken (sessions w))"
  then show "invalidateSession tok w = (Inl RecordNotFound, w)"
    by (rule invalidateSession_missing)
next
  assume a: "s \<in> set (sessions w) \<and> sessionToken s = tok"
  then have a1: "s \<in> set (sessions w)" and a2: "sessionToken s = tok" by blast+
  show first: "invalidateSession tok w = (Inr s, w\<lparr>sessions := remove1 s (sessions w)\<rparr>)"
    using assms a1 a2 by (rule invalidateSession_present)
  have "sessionToken s \<notin> set (map sessionToken (remove1 s (sessions w)))"
    using assms a1 by (rule token_removed)
  then have "tok \<notin> set (map sessionToken (sessions (snd (invalidateSession tok w))))"
    by (simp add: first a2)
  then show "invalidateSession tok (snd (invalidateSession tok w))
                = (Inl RecordNotFound, snd (invalidateSession tok w))"
    by (rule invalidateSession_missing)
qed

text \<open>
  In the example world a call with a token that no row has is rejected; a first call
  with the stored token succeeds and the second call with it is rejected.
\<close>

theorem invalidateSession_idempotent_counterexample:
  "fst (invalidateSession ''ff'' example_world) = Inl RecordNotFound
   \<and> fst (invalidateSession (sessionToken bob_session) example_world) = Inr bob_session
   \<and> fst (invalidateSession (sessionToken bob_session)
        (snd (invalidateSession (sessionToken bob_session) example_world)))
       = Inl RecordNotFound"
  by code_simp

text \<open>The statement at a concrete input.\<close>

theorem invalidateSession_rejects_missing_row_witness:
  "distinct (map sessionToken (sessions example_world))
   \<and> invalidateSession ''ff'' example_world = (Inl RecordNotFound, example_world)
   \<and> invalidateSession (sessionToken bob_session) example_world
       = (Inr bob_session, example_world\<lparr>sessions := []\<rparr>)
   \<and> invalidateSession (sessionToken bob_session) (example_world\<lparr>sessions := []\<rparr>)
       = (Inl RecordNotFound, example_world\<lparr>sessions := []\<rparr>)"
proof -
  have d: "distinct (map sessionToken (sessions example_world))"
    by (simp add: example_defs)
  have 1: "''ff'' \<notin> set (map sessionToken (sessions example_world))"
    by (simp add: example_defs)
  have 2: "bob_session \<in> set (sessions example_world)
      \<and> sessionToken bob_session = sessionToken bob_session"
    by (simp add: example_defs)
  have 3: "remove1 bob_session (sessions example_world) = []"
    by (simp add: example_defs)
  from invalidateSession_rejects_missing_row [OF d, where tok = "''ff''"] 1
  have a: "invalidateSession ''ff'' example_world = (Inl RecordNotFound, example_world)"
    by simp
  from invalidateSession_rejects_missing_row
    [OF d, where tok = "sessionToken bob_session" and s = bob_session] 2
  have b0: "invalidateSession (sessionToken bob_session) example_world
       = (Inr bob_session, example_world\<lparr>sessions := remove1 bob_session (sessions example_world)\<rparr>)"
    and b2: "invalidateSession (sessionToken bob_session)
         (snd (invalidateSession (sessionToken bob_session) example_world))
       = (Inl RecordNotFound, snd (invalidateSession (sessionToken bob_session) example_world))"
    by blast+
  from b0 3 have b1: "invalidateSession (sessionToken bob_session) example_world
       = (Inr bob_session, example_world\<lparr>sessions := []\<rparr>)"
    by simp
  from b2 have b: "invalidateSession (sessionToken bob_session) (example_world\<lparr>sessions := []\<rparr>)
       = (Inl RecordNotFound, example_world\<lparr>sessions := []\<rparr>)"
    unfolding b1 by simp
  from a b1 b d show ?thesis by simp
qed

subsection \<open>Session creation\<close>

text \<open>
  Claim C4, as the snippet has it. \<^verbatim>\<open>createSession\<close> does not retry. When the token
  it draws is already stored (and the expiry is a valid date), the call is rejected with
  the unique-constraint error; and whenever the call is rejected, it has drawn exactly
  one token (32 bytes of the random source) and has left both tables as they were.
\<close>

theorem createSession_surfaces_first_rejection:
  "(fst (generateSessionToken None w) = Inr tok
      \<and> tok \<in> set (map sessionToken (sessions w))
      \<and> \<bar>now + 86400000\<bar> \<le> 8640000000000000 \<longrightarrow>
        fst (createSession uid ip ua now w) = Inl UniqueConstraintFailed)
   \<and> (fst (createSession uid ip ua now w) = Inl e \<longrightarrow>
        drawn (snd (createSession uid ip ua now w)) = drawn w + 32
        \<and> users (snd (createSession uid ip ua now w)) = users w
        \<and> sessions (snd (createSession uid ip ua now w)) = sessions w)"
proof (intro conjI impI)
  assume "fst (generateSessionToken None w) = Inr tok
      \<and> tok \<in> set (map sessionToken (sessions w))
      \<and> \<bar>now + 86400000\<bar> \<le> 8640000000000000"
  then show "fst (createSession uid ip ua now w) = Inl UniqueConstraintFailed"
    by (intro createSession_duplicate [of w tok]) blast+
next
  assume a: "fst (createSession uid ip ua now w) = Inl e"
  show "drawn (snd (createSession uid ip ua now w)) = drawn w + 32"
    using a by (rule createSession_Inl)
  show "users (snd (createSession uid ip ua now w)) = users w"
    using a by (rule createSession_Inl)
  show "sessions (snd (createSession uid ip ua now w)) = sessions w"
    using a by (rule createSession_Inl)
qed

text \<open>
  In the example world the first token drawn is already stored. \<^verbatim>\<open>createSession\<close>
  surfaces the rejection after drawing 32 bytes, although the next token is fresh: the
  accessor that retries once returns a session there.
\<close>

theorem createSession_retry_counterexample:
  "fst (createSession ''u1'' None None 1000 example_world) = Inl UniqueConstraintFailed
   \<and> drawn (snd (createSession ''u1'' None None 1000 example_world)) = 32
   \<and> \<not> isl (fst (createSession_spec ''u1'' None None 1000 example_world))
   \<and> sessionToken (projr (fst (createSession_spec ''u1'' None None 1000 example_world)))
       = ''202122232425262728292a2b2c2d2e2f303132333435363738393a3b3c3d3e3f''"
  by code_simp

text \<open>The statement at a concrete input.\<close>

theorem createSession_surfaces_first_rejection_witness:
  "fst (generateSessionToken None example_world) = Inr (sessionToken bob_session)
   \<and> sessionToken bob_session \<in> set (map sessionToken (sessions example_world))
   \<and> fst (createSession ''u1'' None None 1000 example_world) = Inl UniqueConstraintFailed
   \<and> drawn (snd (createSession ''u1'' None None 1000 example_world)) = 32
   \<and> sessions (snd (createSession ''u1'' None None 1000 example_world)) = [bob_session]"
proof -
  have 1: "fst (generateSessionToken None example_world) = Inr (sessionToken bob_session)"
    "sessionToken bob_session \<in> set (map sessionToken (sessions example_world))"
    by code_simp+
  have 2: "drawn example_world = 0" "sessions example_world = [bob_session]"
    by (simp_all add: example_defs)
  from createSession_surfaces_first_rejection
    [where w = example_world and now = 1000 and uid = "''u1''" and ip = None and ua = None
      and e = UniqueConstraintFailed and tok = "sessionToken bob_session"] 1 2
  show ?thesis by simp
qed

subsection \<open>The stored password\<close>

text \<open>
  Claim C7. When \<^verbatim>\<open>registerUser\<close> succeeds, the row it appends to \<^verbatim>\<open>users\<close> holds
  in \<^verbatim>\<open>password\<close> the value of \<^verbatim>\<open>hashPassword\<close> on the plaintext: a digest with
  cost factor 10 that embeds the salt drawn from the random source (16 bytes, 22
  characters) and the hash text, and that verifies against the plaintext. The plaintext
  enters the stored value only through the one-way function; a plaintext that is not
  itself laid out as a digest is never the stored value.
\<close>

theorem registerUser_stores_digest:
  assumes "registerUser f mail p name now w = (Inr u, w')"
  shows "users w' = users w @ [u]
    \<and> fst (hashPassword f p w) = Inr (password u)
    \<and> (\<exists>salt. fst (bcrypt_genSalt w) = Inr salt \<and> length salt = 22
          \<and> password u = ''$2b$10$'' @ salt @ f 10 salt p
          \<and> parseDigest (password u) = Some (10, salt, f 10 salt p))
    \<and> verifyPassword f p (password u) = Inr True
    \<and> (parseDigest p = None \<longrightarrow> password u \<noteq> p)
    \<and> drawn w' = drawn w + 16"
proof -
  let ?salt = "encode_base64 (map (entropy w) [drawn w ..< drawn w + 16])"
  have us: "users w' = users w @ [u]" and hp: "fst (hashPassword f p w) = Inr (password u)"
    and dr: "drawn w' = drawn w + 16"
    using registerUser_Inr [OF assms] by simp_all
  have l: "length ?salt = 22" by (rule length_genSalt)
  have pw: "password u = bcrypt_hash f ?salt p 10"
    using hp by (simp add: hashPassword_eq)
  have g: "fst (bcrypt_genSalt w) = Inr ?salt" by (simp add: bcrypt_genSalt_eq)
  have lay: "password u = ''$2b$10$'' @ ?salt @ f 10 ?salt p"
    using pw by (simp add: bcrypt_hash_def twoDigits_10)
  have pd: "parseDigest (password u) = Some (10, ?salt, f 10 ?salt p)"
    using pw l by (simp add: parseDigest_bcrypt_hash)
  have v: "verifyPassword f p (password u) = Inr True"
    unfolding pw using l by (rule verify_bcrypt_hash)
  have "\<exists>salt. fst (bcrypt_genSalt w) = Inr salt \<and> length salt = 22
          \<and> password u = ''$2b$10$'' @ salt @ f 10 salt p
          \<and> parseDigest (password u) = Some (10, salt, f 10 salt p)"
    using g l lay pd by blast
  moreover have "parseDigest p = None \<longrightarrow> password u \<noteq> p" using pd by auto
  ultimately show ?thesis using us hp v dr by blast
qed

text \<open>The statement at a concrete input.\<close>

theorem registerUser_stores_digest_witness:
  "\<not> isl (fst (registerUser example_kdf ''a@x.com'' ''pw123!'' ''alice'' 1000 example_world))
   \<and> password (projr (fst (registerUser example_kdf ''a@x.com'' ''pw123!'' ''alice'' 1000
          example_world)))
       = ''$2b$10$..CA.uOD/eaGAOmJB.yMBu!321wp..CA.uOD/eaGAOmJB.yMBu''
   \<and> password (projr (fst (registerUser example_kdf ''a@x.com'' ''pw123!'' ''alice'' 1000
          example_world))) \<noteq> ''pw123!''
   \<and> drawn (snd (registerUser example_kdf ''a@x.com'' ''pw123!'' ''alice'' 1000
          example_world)) = 16"
proof -
  let ?r = "registerUser example_kdf ''a@x.com'' ''pw123!'' ''alice'' 1000 example_world"
  have ok: "\<not> isl (fst ?r)" by code_simp
  then have r: "?r = (Inr (projr (fst ?r)), snd ?r)" by (simp add: prod_eq_iff)
  have h: "fst (hashPassword example_kdf ''pw123!'' example_world)
       = Inr ''$2b$10$..CA.uOD/eaGAOmJB.yMBu!321wp..CA.uOD/eaGAOmJB.yMBu''" by code_simp
  have n: "parseDigest ''pw123!'' = None" by code_simp
  have d: "drawn example_world = 0" by (simp add: example_defs)
  from registerUser_stores_digest [OF r] h n d ok show ?thesis by simp
qed

subsection \<open>Registration\<close>



end
